theory Spec2Isabelle
  imports Complex_Main
begin

section \<open>The store\<close>

text \<open>
  The statistics controller of the task tracker reads three tables through GORM:
  tasks, categories and projects. A row is modelled by a record holding the columns
  the controller reads. A \<open>time.Time\<close> is the number of nanoseconds since
  1970-01-01T00:00:00 on the wall clock of the one location that the server and the
  database share (the DSN says \<open>loc=Local\<close>); a nullable column is an option.
  Every model of the repository embeds \<open>gorm.DeletedAt\<close>, so a row is soft-deleted
  by setting \<open>deleted_at\<close>, and every query built with \<open>DB.Model\<close> or \<open>DB.Find\<close>
  carries the extra condition \<open>deleted_at IS NULL\<close>.
\<close>

type_synonym time = int

record task =
  t_id :: nat
  t_status :: string
  t_priority :: string
  t_due_date :: "time option"
  t_completed_at :: "time option"
  t_user_id :: nat
  t_category_id :: "nat option"
  t_project_id :: "nat option"
  t_created_at :: time
  t_deleted_at :: "time option"

record category =
  c_id :: nat
  c_name :: string
  c_user_id :: nat
  c_deleted_at :: "time option"

record project =
  p_id :: nat
  p_name :: string
  p_status :: string
  p_user_id :: nat
  p_deleted_at :: "time option"

record store =
  tasks :: "task list"
  categories :: "category list"
  projects :: "project list"

text \<open>\<open>DB.Model(&models.Task{}).Where(cond).Count(&n)\<close>: the rows that are not
  soft-deleted and satisfy the condition.\<close>

definition count_tasks :: "store \<Rightarrow> (task \<Rightarrow> bool) \<Rightarrow> int" where
  "count_tasks db cond =
     int (length (filter (\<lambda>t. t_deleted_at t = None \<and> cond t) (tasks db)))"

definition count_projects :: "store \<Rightarrow> (project \<Rightarrow> bool) \<Rightarrow> int" where
  "count_projects db cond =
     int (length (filter (\<lambda>p. p_deleted_at p = None \<and> cond p) (projects db)))"

definition count_categories :: "store \<Rightarrow> (category \<Rightarrow> bool) \<Rightarrow> int" where
  "count_categories db cond =
     int (length (filter (\<lambda>c. c_deleted_at c = None \<and> cond c) (categories db)))"

section \<open>Time\<close>

text \<open>
  The calendar of Go's \<open>time\<close> package, for one location without daylight saving:
  the proleptic Gregorian calendar over day numbers counted from 1970-01-01. A
  \<open>time.Duration\<close> is a number of nanoseconds.
\<close>


lemma div_step:
  fixes y k :: int
  assumes "0 < k"
  shows "y div k = (y - 1) div k + (if y mod k = 0 then 1 else 0)"
proof (cases "y mod k = 0")
  case True
  then obtain q where q: "y = k * q" by auto
  have "y - 1 = k * (q - 1) + (k - 1)" unfolding q by (simp add: right_diff_distrib)
  then have "(y - 1) div k = q - 1"
    using assms by (intro int_div_pos_eq [where r = "k - 1"]) auto
  moreover have "y div k = q" using assms q by simp
  ultimately show ?thesis using True by simp
next
  case False
  have r: "0 < y mod k" "y mod k < k"
  proof -
    have "0 \<le> y mod k" using assms by simp
    then show "0 < y mod k" using False by simp
    show "y mod k < k" using assms by simp
  qed
  have "y - 1 = k * (y div k) + (y mod k - 1)" by simp
  then have "(y - 1) div k = y div k"
    using r by (intro int_div_pos_eq [where r = "y mod k - 1"]) auto
  then show ?thesis using False by simp
qed

definition isLeap :: "int \<Rightarrow> bool" where
  "isLeap year = (year mod 4 = 0 \<and> (year mod 100 \<noteq> 0 \<or> year mod 400 = 0))"

definition daysBeforeYear :: "int \<Rightarrow> int" where
  "daysBeforeYear year =
     365 * (year - 1970) + (year - 1) div 4 - (year - 1) div 100 + (year - 1) div 400 - 477"

lemma mod_400_100: "(y::int) mod 400 = 0 \<Longrightarrow> y mod 100 = 0"
proof -
  assume a: "y mod 400 = 0"
  have "y mod 100 = y mod 400 mod 100" by (simp add: mod_mod_cancel)
  then show ?thesis using a by simp
qed

lemma mod_100_4: "(y::int) mod 100 = 0 \<Longrightarrow> y mod 4 = 0"
proof -
  assume a: "y mod 100 = 0"
  have "y mod 4 = y mod 100 mod 4" by (simp add: mod_mod_cancel)
  then show ?thesis using a by simp
qed

lemma daysBeforeYear_step:
  "daysBeforeYear (y + 1) = daysBeforeYear y + (if isLeap y then 366 else 365)"
proof -
  have a: "y div 4 = (y - 1) div 4 + (if y mod 4 = 0 then 1 else 0)"
    by (rule div_step) simp
  have b: "y div 100 = (y - 1) div 100 + (if y mod 100 = 0 then 1 else 0)"
    by (rule div_step) simp
  have c: "y div 400 = (y - 1) div 400 + (if y mod 400 = 0 then 1 else 0)"
    by (rule div_step) simp
  have d: "daysBeforeYear (y + 1) - daysBeforeYear y
           = 365 + (y div 4 - (y - 1) div 4) - (y div 100 - (y - 1) div 100)
               + (y div 400 - (y - 1) div 400)"
    unfolding daysBeforeYear_def by simp
  have e: "y div 4 - (y - 1) div 4 = (if y mod 4 = 0 then 1 else 0)"
    using a by linarith
  have f: "y div 100 - (y - 1) div 100 = (if y mod 100 = 0 then 1 else 0)"
    using b by linarith
  have g: "y div 400 - (y - 1) div 400 = (if y mod 400 = 0 then 1 else 0)"
    using c by linarith
  define p4 where "p4 = (y mod 4 = 0)"
  define p100 where "p100 = (y mod 100 = 0)"
  define p400 where "p400 = (y mod 400 = 0)"
  have imp: "p400 \<longrightarrow> p100" "p100 \<longrightarrow> p4"
    using mod_400_100 [of y] mod_100_4 [of y] unfolding p4_def p100_def p400_def by blast+
  have "daysBeforeYear (y + 1) - daysBeforeYear y
          = 365 + (if p4 then 1 else 0) - (if p100 then 1 else 0) + (if p400 then 1 else 0)"
    unfolding d e f g p4_def p100_def p400_def by (rule refl)
  also have "\<dots> = (if p4 \<and> (\<not> p100 \<or> p400) then 366 else 365)"
    using imp by (cases p4; cases p100; cases p400) simp_all
  finally have "daysBeforeYear (y + 1) - daysBeforeYear y = (if isLeap y then 366 else 365)"
    unfolding isLeap_def p4_def p100_def p400_def .
  then show ?thesis by linarith
qed

lemma daysBeforeYear_less: "daysBeforeYear y < daysBeforeYear (y + 1)"
  by (simp add: daysBeforeYear_step)

lemma daysBeforeYear_pred: "daysBeforeYear (y - 1) < daysBeforeYear y"
  using daysBeforeYear_less [of "y - 1"] by simp

lemma daysBeforeYear_mono: "y \<le> y' \<Longrightarrow> daysBeforeYear y \<le> daysBeforeYear y'"
proof (induction y' rule: int_ge_induct)
  case base
  show ?case by simp
next
  case (step i)
  then show ?case using daysBeforeYear_less [of i] by linarith
qed

lemma year_unique:
  assumes "daysBeforeYear y \<le> z" "z < daysBeforeYear (y + 1)"
    and "daysBeforeYear y' \<le> z" "z < daysBeforeYear (y' + 1)"
  shows "y = y'"
proof (rule ccontr)
  assume "y \<noteq> y'"
  then consider "y + 1 \<le> y'" | "y' + 1 \<le> y" by linarith
  then show False
  proof cases
    case 1
    from daysBeforeYear_mono [OF this] assms show False by linarith
  next
    case 2
    from daysBeforeYear_mono [OF this] assms show False by linarith
  qed
qed

function find_year :: "int \<Rightarrow> int \<Rightarrow> int" where
  "find_year z y =
     (if z < daysBeforeYear y then find_year z (y - 1)
      else if daysBeforeYear (y + 1) \<le> z then find_year z (y + 1)
      else y)"
  by pat_completeness auto
termination
proof (relation "measure (\<lambda>(z, y). nat (max (daysBeforeYear y - z) (z - daysBeforeYear (y + 1) + 1)))")
  show "wf (measure (\<lambda>(z, y). nat (max (daysBeforeYear y - z) (z - daysBeforeYear (y + 1) + 1))))"
    by simp
next
  fix z y :: int
  assume "z < daysBeforeYear y"
  then show "((z, y - 1), (z, y)) \<in> measure (\<lambda>(z, y). nat (max (daysBeforeYear y - z) (z - daysBeforeYear (y + 1) + 1)))"
    using daysBeforeYear_pred [of y] daysBeforeYear_less [of y] by simp
next
  fix z y :: int
  assume "\<not> z < daysBeforeYear y" "daysBeforeYear (y + 1) \<le> z"
  then show "((z, y + 1), (z, y)) \<in> measure (\<lambda>(z, y). nat (max (daysBeforeYear y - z) (z - daysBeforeYear (y + 1) + 1)))"
    using daysBeforeYear_less [of "y + 1"] daysBeforeYear_less [of y] by simp
qed

declare find_year.simps [simp del]

lemma find_year_bounds:
  "daysBeforeYear (find_year z y) \<le> z \<and> z < daysBeforeYear (find_year z y + 1)"
proof (induction z y rule: find_year.induct)
  case (1 z y)
  show ?case
  proof (cases "z < daysBeforeYear y")
    case True
    then show ?thesis using 1(1) by (subst (1 2) find_year.simps) simp
  next
    case False
    show ?thesis
    proof (cases "daysBeforeYear (y + 1) \<le> z")
      case True
      then show ?thesis using False 1(2) by (subst (1 2) find_year.simps) simp
    next
      case False
      then show ?thesis using \<open>\<not> z < daysBeforeYear y\<close>
        by (subst (1 2) find_year.simps) simp
    qed
  qed
qed

definition daysBefore :: "int \<Rightarrow> int" where
  "daysBefore m = [0, 31, 59, 90, 120, 151, 181, 212, 243, 273, 304, 334, 365] ! nat m"

definition daysBeforeMonth :: "int \<Rightarrow> int \<Rightarrow> int" where
  "daysBeforeMonth year month =
     daysBefore (month - 1) + (if isLeap year \<and> 3 \<le> month then 1 else 0)"

definition daysIn :: "int \<Rightarrow> int \<Rightarrow> int" where
  "daysIn month year =
     (if month = 2 \<and> isLeap year then 29 else daysBefore month - daysBefore (month - 1))"

definition monthOfYday :: "int \<Rightarrow> int \<Rightarrow> int" where
  "monthOfYday year yd =
     (case List.find (\<lambda>m. yd < daysBeforeMonth year (m + 1))
             [1, 2, 3, 4, 5, 6, 7, 8, 9, 10, 11, 12] of
        Some m \<Rightarrow> m | None \<Rightarrow> 12)"

definition yearOfDay :: "int \<Rightarrow> int" where
  "yearOfDay z = find_year z (1970 + z div 365)"

definition civil :: "int \<Rightarrow> int \<times> int \<times> int" where
  "civil z =
     (let y = yearOfDay z; yd = z - daysBeforeYear y; m = monthOfYday y yd
      in (y, m, yd - daysBeforeMonth y m + 1))"

definition daysFromCivil :: "int \<Rightarrow> int \<Rightarrow> int \<Rightarrow> int" where
  "daysFromCivil y m d = daysBeforeYear y + daysBeforeMonth y m + (d - 1)"

lemma month_cases:
  assumes "1 \<le> m" "m \<le> (12::int)"
  obtains "m = 1" | "m = 2" | "m = 3" | "m = 4" | "m = 5" | "m = 6"
    | "m = 7" | "m = 8" | "m = 9" | "m = 10" | "m = 11" | "m = 12"
proof -
  have "m \<in> set [1..12]" using assms by simp
  also have "[1..12] = [1, 2, 3, 4, 5, 6, 7, 8, 9, 10, 11, 12::int]"
    by (simp add: upto_rec1)
  finally show thesis using that by auto
qed

lemma daysBeforeMonth_vals:
  "daysBeforeMonth y 1 = 0"
  "daysBeforeMonth y 2 = 31"
  "daysBeforeMonth y 3 = (if isLeap y then 60 else 59)"
  "daysBeforeMonth y 4 = (if isLeap y then 91 else 90)"
  "daysBeforeMonth y 5 = (if isLeap y then 121 else 120)"
  "daysBeforeMonth y 6 = (if isLeap y then 152 else 151)"
  "daysBeforeMonth y 7 = (if isLeap y then 182 else 181)"
  "daysBeforeMonth y 8 = (if isLeap y then 213 else 212)"
  "daysBeforeMonth y 9 = (if isLeap y then 244 else 243)"
  "daysBeforeMonth y 10 = (if isLeap y then 274 else 273)"
  "daysBeforeMonth y 11 = (if isLeap y then 305 else 304)"
  "daysBeforeMonth y 12 = (if isLeap y then 335 else 334)"
  "daysBeforeMonth y 13 = (if isLeap y then 366 else 365)"
  by (simp_all add: daysBeforeMonth_def daysBefore_def)

lemma daysIn_vals:
  "daysIn 1 y = 31" "daysIn 2 y = (if isLeap y then 29 else 28)" "daysIn 3 y = 31"
  "daysIn 4 y = 30" "daysIn 5 y = 31" "daysIn 6 y = 30" "daysIn 7 y = 31" "daysIn 8 y = 31"
  "daysIn 9 y = 30" "daysIn 10 y = 31" "daysIn 11 y = 30" "daysIn 12 y = 31"
  by (simp_all add: daysIn_def daysBefore_def)

lemma daysBeforeMonth_Suc:
  assumes "1 \<le> m" "m \<le> 12"
  shows "daysBeforeMonth y (m + 1) = daysBeforeMonth y m + daysIn m y"
  using assms by (rule month_cases) (simp_all add: daysBeforeMonth_vals daysIn_vals)

lemma monthOfYday_eq:
  assumes "1 \<le> m" "m \<le> 12"
    and "daysBeforeMonth y m \<le> yd" "yd < daysBeforeMonth y (m + 1)"
  shows "monthOfYday y yd = m"
  using assms(1,2)
proof (rule month_cases)
  assume "m = 1" then show ?thesis using assms(3,4)
    by (simp add: monthOfYday_def daysBeforeMonth_vals)
qed (insert assms(3,4), simp_all add: monthOfYday_def daysBeforeMonth_vals split: if_splits)

lemma monthOfYday_bounds:
  assumes "0 \<le> yd" "yd < daysBeforeMonth y 13"
  shows "1 \<le> monthOfYday y yd \<and> monthOfYday y yd \<le> 12
         \<and> daysBeforeMonth y (monthOfYday y yd) \<le> yd
         \<and> yd < daysBeforeMonth y (monthOfYday y yd + 1)"
  using assms
  by (cases "isLeap y") (simp_all add: monthOfYday_def daysBeforeMonth_vals)

lemma yearOfDay_bounds:
  "daysBeforeYear (yearOfDay z) \<le> z \<and> z < daysBeforeYear (yearOfDay z + 1)"
  unfolding yearOfDay_def by (rule find_year_bounds)

lemma yearOfDay_eq:
  assumes "daysBeforeYear y \<le> z" "z < daysBeforeYear (y + 1)"
  shows "yearOfDay z = y"
  using year_unique [OF _ _ assms, of "yearOfDay z"] yearOfDay_bounds [of z] by simp

lemma yearlen: "daysBeforeYear (y + 1) = daysBeforeYear y + daysBeforeMonth y 13"
  by (simp add: daysBeforeYear_step daysBeforeMonth_vals)

lemma civil_valid:
  assumes "civil z = (y, m, d)"
  shows "1 \<le> m \<and> m \<le> 12 \<and> 1 \<le> d \<and> d \<le> daysIn m y"
proof -
  define yd where "yd = z - daysBeforeYear y"
  have y: "y = yearOfDay z" and m: "m = monthOfYday y yd"
    and d: "d = yd - daysBeforeMonth y m + 1"
    using assms by (auto simp add: civil_def Let_def yd_def)
  have "0 \<le> yd" "yd < daysBeforeMonth y 13"
    using yearOfDay_bounds [of z] yearlen [of y] by (simp_all add: yd_def y)
  from monthOfYday_bounds [OF this] have b: "1 \<le> m" "m \<le> 12"
    "daysBeforeMonth y m \<le> yd" "yd < daysBeforeMonth y (m + 1)"
    by (simp_all add: m)
  show ?thesis using b daysBeforeMonth_Suc [OF b(1,2), of y] by (simp add: d)
qed

lemma daysFromCivil_civil:
  "civil z = (y, m, d) \<Longrightarrow> daysFromCivil y m d = z"
  by (auto simp add: civil_def Let_def daysFromCivil_def)

lemma daysBeforeMonth_range:
  assumes "1 \<le> m" "m \<le> 12"
  shows "0 \<le> daysBeforeMonth y m \<and> daysBeforeMonth y (m + 1) \<le> daysBeforeMonth y 13"
  using assms by (rule month_cases) (simp_all add: daysBeforeMonth_vals)

lemma civil_daysFromCivil:
  assumes "1 \<le> m" "m \<le> 12" "1 \<le> d" "d \<le> daysIn m y"
  shows "civil (daysFromCivil y m d) = (y, m, d)"
proof -
  define yd where "yd = daysBeforeMonth y m + (d - 1)"
  have z: "daysFromCivil y m d = daysBeforeYear y + yd"
    by (simp add: daysFromCivil_def yd_def)
  have b: "daysBeforeMonth y m \<le> yd" "yd < daysBeforeMonth y (m + 1)"
    using assms daysBeforeMonth_Suc [OF assms(1,2), of y] by (simp_all add: yd_def)
  have r: "0 \<le> yd" "yd < daysBeforeMonth y 13"
    using b daysBeforeMonth_range [OF assms(1,2), of y] by linarith+
  have yr: "yearOfDay (daysBeforeYear y + yd) = y"
    by (rule yearOfDay_eq) (use r yearlen [of y] in simp_all)
  have mo: "monthOfYday y yd = m"
    by (rule monthOfYday_eq [OF assms(1,2) b])
  show ?thesis
    unfolding z by (simp add: civil_def Let_def yr mo) (simp add: yd_def)
qed

lemma civil_inj: "civil z = civil z' \<Longrightarrow> z = z'"
  by (metis daysFromCivil_civil prod_cases3)

definition Second :: int where "Second = 1000000000"
definition Minute :: int where "Minute = 60 * Second"
definition Hour :: int where "Hour = 60 * Minute"

definition dayNumber :: "time \<Rightarrow> int" where
  "dayNumber t = t div (24 * Hour)"

definition Date :: "int \<Rightarrow> int \<Rightarrow> int \<Rightarrow> int \<Rightarrow> int \<Rightarrow> int \<Rightarrow> int \<Rightarrow> time" where
  "Date year month day hour minute sec nsec =
     (let m = month - 1; year' = year + m div 12; month' = m mod 12 + 1
      in daysFromCivil year' month' day * (24 * Hour)
           + hour * Hour + minute * Minute + sec * Second + nsec)"

definition Year :: "time \<Rightarrow> int" where
  "Year t = fst (civil (dayNumber t))"

definition Month :: "time \<Rightarrow> int" where
  "Month t = fst (snd (civil (dayNumber t)))"

definition Day :: "time \<Rightarrow> int" where
  "Day t = snd (snd (civil (dayNumber t)))"

definition Weekday :: "time \<Rightarrow> int" where
  "Weekday t = (dayNumber t + 4) mod 7"

definition AddDate :: "int \<Rightarrow> int \<Rightarrow> int \<Rightarrow> time \<Rightarrow> time" where
  "AddDate years months days t =
     (let tod = t mod (24 * Hour)
      in Date (Year t + years) (Month t + months) (Day t + days)
           (tod div Hour) (tod mod Hour div Minute) (tod mod Minute div Second)
           (tod mod Second))"

definition Add :: "time \<Rightarrow> int \<Rightarrow> time" where
  "Add t d = t + d"

definition digit :: "nat \<Rightarrow> char" where
  "digit n = ''0123456789'' ! n"

function digits :: "nat \<Rightarrow> string" where
  "digits n = (if n < 10 then [digit n] else digits (n div 10) @ [digit (n mod 10)])"
  by pat_completeness auto
termination
  by (relation "measure id") auto

declare digits.simps [simp del]

definition appendInt :: "int \<Rightarrow> nat \<Rightarrow> string" where
  "appendInt x width =
     (let ds = digits (nat \<bar>x\<bar>)
      in (if x < 0 then ''-'' else []) @ replicate (width - length ds) (CHR ''0'') @ ds)"

definition Format_date :: "time \<Rightarrow> string" where
  "Format_date t = appendInt (Year t) 4 @ ''-'' @ appendInt (Month t) 2 @ ''-'' @ appendInt (Day t) 2"

definition Format_month :: "time \<Rightarrow> string" where
  "Format_month t = appendInt (Year t) 4 @ ''-'' @ appendInt (Month t) 2"

lemma clock_sum:
  "(tod::int) div Hour * Hour + tod mod Hour div Minute * Minute
     + tod mod Minute div Second * Second + tod mod Second = tod"
proof -
  have a: "tod mod Hour mod Minute = tod mod Minute"
    by (simp add: Hour_def mod_mod_cancel)
  have b: "tod mod Minute mod Second = tod mod Second"
    by (simp add: Minute_def mod_mod_cancel)
  have "tod = tod div Hour * Hour + tod mod Hour" by simp
  also have "tod mod Hour = tod mod Hour div Minute * Minute + tod mod Hour mod Minute" by simp
  also have "tod mod Hour mod Minute = tod mod Minute div Second * Second + tod mod Minute mod Second"
    unfolding a by simp
  finally show ?thesis unfolding b by simp
qed

lemma civil_of_time:
  "civil (dayNumber t) = (Year t, Month t, Day t)"
  by (simp add: Year_def Month_def Day_def)

lemma Date_valid_month:
  assumes "1 \<le> m" "m \<le> 12"
  shows "Date y m d h mi s ns = daysFromCivil y m d * (24 * Hour) + h * Hour + mi * Minute + s * Second + ns"
proof -
  have "(m - 1) div 12 = 0" "(m - 1) mod 12 = m - 1" using assms by simp_all
  then show ?thesis by (simp add: Date_def Let_def)
qed

lemma daysFromCivil_add: "daysFromCivil y m (d + n) = daysFromCivil y m d + n"
  by (simp add: daysFromCivil_def)

lemma AddDate_days: "AddDate 0 0 n t = t + n * (24 * Hour)"
proof -
  have v: "1 \<le> Month t" "Month t \<le> 12"
    using civil_valid [OF civil_of_time [of t]] by simp_all
  have z: "daysFromCivil (Year t) (Month t) (Day t) = dayNumber t"
    by (rule daysFromCivil_civil [OF civil_of_time])
  have "AddDate 0 0 n t = (dayNumber t + n) * (24 * Hour) + t mod (24 * Hour)"
    unfolding AddDate_def Let_def
    using clock_sum [of "t mod (24 * Hour)"]
    by (simp only: add_0_right Date_valid_month [OF v] daysFromCivil_add z)
  also have "\<dots> = t + n * (24 * Hour)"
    using div_mult_mod_eq [of t "24 * Hour"]
    by (simp only: dayNumber_def distrib_right)
  finally show ?thesis .
qed

definition undigits :: "string \<Rightarrow> nat" where
  "undigits s = foldl (\<lambda>a c. 10 * a + (of_char c - 48)) 0 s"

lemma digit_cases:
  assumes "k < (10::nat)"
  obtains "k = 0" | "k = 1" | "k = 2" | "k = 3" | "k = 4" | "k = 5" | "k = 6" | "k = 7"
    | "k = 8" | "k = 9"
proof -
  have "k \<in> set [0..<10]" using assms by simp
  also have "[0..<10] = [0, 1, 2, 3, 4, 5, 6, 7, 8, 9::nat]"
    by (simp add: upt_conv_Cons)
  finally show thesis using that by auto
qed

lemma of_char_digit: "k < 10 \<Longrightarrow> of_char (digit k) = (48 + k :: nat)"
  by (erule digit_cases) (simp_all add: digit_def)

lemma digit_not_minus: "k < 10 \<Longrightarrow> digit k \<noteq> CHR ''-''"
  by (erule digit_cases) (simp_all add: digit_def)

lemma undigits_snoc: "undigits (s @ [c]) = 10 * undigits s + (of_char c - 48)"
  by (simp add: undigits_def)

lemma undigits_digits: "undigits (digits n) = n"
proof (induction n rule: digits.induct)
  case (1 n)
  show ?case
  proof (cases "n < 10")
    case True
    then show ?thesis
      by (subst digits.simps) (simp add: undigits_def of_char_digit)
  next
    case False
    then show ?thesis
      using 1 by (subst digits.simps) (simp add: undigits_snoc of_char_digit)
  qed
qed

lemma minus_notin_digits: "CHR ''-'' \<notin> set (digits n)"
proof (induction n rule: digits.induct)
  case (1 n)
  show ?case
  proof (cases "n < 10")
    case True
    then show ?thesis
      using digit_not_minus [of n] by (subst digits.simps) auto
  next
    case False
    then show ?thesis
      using 1 digit_not_minus [of "n mod 10"] by (subst digits.simps) auto
  qed
qed

lemma undigits_pad: "undigits (replicate k (CHR ''0'') @ s) = undigits s"
proof -
  have "foldl (\<lambda>a c. 10 * a + (of_char c - 48)) 0 (replicate k (CHR ''0'')) = (0::nat)"
    by (induction k) simp_all
  then show ?thesis by (simp add: undigits_def)
qed

lemma digits_nonempty: "digits n \<noteq> []"
  by (subst digits.simps) simp

lemma appendInt_neg:
  "x < 0 \<Longrightarrow> appendInt x w = CHR ''-'' # replicate (w - length (digits (nat \<bar>x\<bar>))) (CHR ''0'') @ digits (nat \<bar>x\<bar>)"
  by (simp add: appendInt_def Let_def)

lemma appendInt_nonneg:
  "0 \<le> x \<Longrightarrow> appendInt x w = replicate (w - length (digits (nat x))) (CHR ''0'') @ digits (nat x)"
  by (simp add: appendInt_def Let_def)

lemma appendInt_nonneg_hd:
  assumes "0 \<le> x"
  shows "hd (appendInt x w) \<noteq> CHR ''-''"
proof -
  have "appendInt x w \<noteq> []" using digits_nonempty by (simp add: appendInt_nonneg assms)
  then have "hd (appendInt x w) \<in> set (appendInt x w)" by simp
  moreover have "CHR ''-'' \<notin> set (appendInt x w)"
    using minus_notin_digits by (auto simp add: appendInt_nonneg assms)
  ultimately show ?thesis by metis
qed

lemma appendInt_inj:
  assumes "appendInt x w = appendInt y w"
  shows "x = y"
proof -
  have neg: "x < 0 \<longleftrightarrow> y < 0"
    using assms appendInt_nonneg_hd [of x w] appendInt_nonneg_hd [of y w]
      appendInt_neg [of x w] appendInt_neg [of y w]
    by (metis list.sel(1) not_less)
  show ?thesis
  proof (cases "x < 0")
    case True
    then have "y < 0" using neg by simp
    from assms have "undigits (tl (appendInt x w)) = undigits (tl (appendInt y w))" by simp
    then have "nat \<bar>x\<bar> = nat \<bar>y\<bar>"
      by (simp add: appendInt_neg True \<open>y < 0\<close> undigits_pad undigits_digits)
    then show ?thesis using True \<open>y < 0\<close> by simp
  next
    case False
    then have "0 \<le> x" "0 \<le> y" using neg by simp_all
    from assms have "undigits (appendInt x w) = undigits (appendInt y w)" by simp
    then have "nat x = nat y"
      by (simp add: appendInt_nonneg \<open>0 \<le> x\<close> \<open>0 \<le> y\<close> undigits_pad undigits_digits)
    then show ?thesis using \<open>0 \<le> x\<close> \<open>0 \<le> y\<close> by simp
  qed
qed

lemma length_appendInt_2:
  assumes "0 \<le> x" "x < 100"
  shows "length (appendInt x 2) = 2"
proof (cases "nat x < 10")
  case True
  then have "digits (nat x) = [digit (nat x)]" by (subst digits.simps) simp
  then show ?thesis by (simp add: appendInt_nonneg assms)
next
  case False
  have "nat x div 10 < 10" using assms by simp
  then have "digits (nat x div 10) = [digit (nat x div 10)]" by (subst digits.simps) simp
  then have "length (digits (nat x)) = 2" using False by (subst digits.simps) simp
  then show ?thesis by (simp add: appendInt_nonneg assms)
qed

lemma daysIn_le_31: "1 \<le> m \<Longrightarrow> m \<le> 12 \<Longrightarrow> daysIn m y \<le> 31"
  by (erule (1) month_cases) (simp_all add: daysIn_vals)

lemma Format_date_inj:
  assumes "Format_date t = Format_date t'"
  shows "dayNumber t = dayNumber t'"
proof -
  have v: "1 \<le> Month t \<and> Month t \<le> 12 \<and> 1 \<le> Day t \<and> Day t \<le> daysIn (Month t) (Year t)"
    by (rule civil_valid [OF civil_of_time])
  have v': "1 \<le> Month t' \<and> Month t' \<le> 12 \<and> 1 \<le> Day t' \<and> Day t' \<le> daysIn (Month t') (Year t')"
    by (rule civil_valid [OF civil_of_time])
  have l: "length (appendInt (Month t) 2) = 2" "length (appendInt (Day t) 2) = 2"
    using v daysIn_le_31 [of "Month t" "Year t"] by (simp_all add: length_appendInt_2)
  have l': "length (appendInt (Month t') 2) = 2" "length (appendInt (Day t') 2) = 2"
    using v' daysIn_le_31 [of "Month t'" "Year t'"] by (simp_all add: length_appendInt_2)
  have len: "length (Format_date t) = length (Format_date t')" using assms by simp
  then have ly: "length (appendInt (Year t) 4) = length (appendInt (Year t') 4)"
    by (simp add: Format_date_def l l')
  from assms have "appendInt (Year t) 4 = appendInt (Year t') 4
      \<and> ''-'' @ appendInt (Month t) 2 @ ''-'' @ appendInt (Day t) 2
        = ''-'' @ appendInt (Month t') 2 @ ''-'' @ appendInt (Day t') 2"
    unfolding Format_date_def
    using ly append_eq_append_conv [of "appendInt (Year t) 4" "appendInt (Year t') 4"] by blast
  then have y: "appendInt (Year t) 4 = appendInt (Year t') 4"
    and r: "appendInt (Month t) 2 @ ''-'' @ appendInt (Day t) 2
        = appendInt (Month t') 2 @ ''-'' @ appendInt (Day t') 2" by simp_all
  from r have "appendInt (Month t) 2 = appendInt (Month t') 2
      \<and> ''-'' @ appendInt (Day t) 2 = ''-'' @ appendInt (Day t') 2"
    using l(1) l'(1) append_eq_append_conv [of "appendInt (Month t) 2" "appendInt (Month t') 2"]
    by simp
  then have m: "appendInt (Month t) 2 = appendInt (Month t') 2"
    and d: "appendInt (Day t) 2 = appendInt (Day t') 2" by simp_all
  have "civil (dayNumber t) = civil (dayNumber t')"
    unfolding civil_of_time
    using appendInt_inj [OF y] appendInt_inj [OF m] appendInt_inj [OF d] by simp
  then show ?thesis by (rule civil_inj)
qed

section \<open>Parsing\<close>

text \<open>\<open>strconv.Atoi\<close>: an optional sign and decimal digits, nothing else; the value
  must fit a 64-bit \<open>int\<close>.\<close>

datatype NumError = ErrSyntax | ErrRange

definition isDigit :: "char \<Rightarrow> bool" where
  "isDigit c = (c \<in> set ''0123456789'')"

definition Atoi :: "string \<Rightarrow> NumError + int" where
  "Atoi s =
     (let neg = (s \<noteq> [] \<and> hd s = CHR ''-'');
          body = (if s \<noteq> [] \<and> (hd s = CHR ''+'' \<or> hd s = CHR ''-'') then tl s else s)
      in if body = [] \<or> \<not> list_all isDigit body then Inl ErrSyntax
         else let n = int (undigits body)
              in if neg then (if 2 ^ 63 < n then Inl ErrRange else Inr (- n))
                 else (if 2 ^ 63 \<le> n then Inl ErrRange else Inr n))"

text \<open>The helpers of \<open>utils\<close>. \<open>SafeStringConvert\<close> is called on a string, which it
  returns.\<close>

definition SafeStringConvert :: "string \<Rightarrow> string" where
  "SafeStringConvert v = v"

definition SafeIntConvert :: "string \<Rightarrow> NumError + int" where
  "SafeIntConvert v = (if v = [] then Inr 0 else Atoi v)"

text \<open>\<open>c.DefaultQuery(key, dflt)\<close>: the value of the query parameter when the key is
  present (the value may be empty), the default otherwise.\<close>

definition DefaultQuery :: "string option \<Rightarrow> string \<Rightarrow> string" where
  "DefaultQuery q dflt = (case q of Some v \<Rightarrow> v | None \<Rightarrow> dflt)"

text \<open>\<open>time.Parse("2006-01", s)\<close>: four digits of the year, a hyphen, two digits of
  the month, which must lie between 1 and 12, and no text after them. The result is the
  first instant of that month.\<close>

definition Parse_month :: "string \<Rightarrow> time option" where
  "Parse_month s =
     (if length s < 4 \<or> \<not> list_all isDigit (take 4 s) then None
      else let year = int (undigits (take 4 s)); v = drop 4 s
           in if take 1 v \<noteq> ''-'' then None
              else let w = drop 1 v
                   in if length w < 2 \<or> \<not> list_all isDigit (take 2 w) then None
                      else let month = int (undigits (take 2 w))
                           in if month \<le> 0 \<or> 12 < month then None
                              else if drop 2 w \<noteq> [] then None
                              else Some (Date year month 1 0 0 0 0))"

section \<open>The overview report\<close>

record StatsOverview =
  TotalTasks :: int
  PendingTasks :: int
  InProgressTasks :: int
  CompletedTasks :: int
  TotalProjects :: int
  ActiveProjects :: int
  TotalCategories :: int

definition GetOverview :: "store \<Rightarrow> nat \<Rightarrow> StatsOverview" where
  "GetOverview db userID =
     \<lparr> TotalTasks = count_tasks db (\<lambda>t. t_user_id t = userID),
       PendingTasks = count_tasks db (\<lambda>t. t_user_id t = userID \<and> t_status t = ''pending''),
       InProgressTasks =
         count_tasks db (\<lambda>t. t_user_id t = userID \<and> t_status t = ''in_progress''),
       CompletedTasks =
         count_tasks db (\<lambda>t. t_user_id t = userID \<and> t_status t = ''completed''),
       TotalProjects = count_projects db (\<lambda>p. p_user_id p = userID),
       ActiveProjects = count_projects db (\<lambda>p. p_user_id p = userID \<and> p_status p = ''active''),
       TotalCategories = count_categories db (\<lambda>c. c_user_id c = userID) \<rparr>"

text \<open>The owner's tasks: the rows of the owner that are not soft-deleted.\<close>

definition owned_tasks :: "store \<Rightarrow> nat \<Rightarrow> task list" where
  "owned_tasks db userID =
     filter (\<lambda>t. t_deleted_at t = None \<and> t_user_id t = userID) (tasks db)"

section \<open>Queries\<close>

text \<open>
  A request reads the clock several times: \<open>clk k\<close> is the value that the \<open>k\<close>-th call
  of \<open>time.Now()\<close> of the request returns, counted from 0.
\<close>

type_synonym clock = "nat \<Rightarrow> time"

text \<open>The conditions of the \<open>Where\<close> clauses. A comparison with a NULL column is not
  true. \<open>DATE(col) = ?\<close> compares the calendar date of the column with the date that
  the handler formatted.\<close>

definition sql_DATE_eq :: "time option \<Rightarrow> string \<Rightarrow> bool" where
  "sql_DATE_eq col dateStr = (case col of None \<Rightarrow> False | Some t \<Rightarrow> Format_date t = dateStr)"

definition sql_between :: "time option \<Rightarrow> time \<Rightarrow> time \<Rightarrow> bool" where
  "sql_between col lo hi = (case col of None \<Rightarrow> False | Some t \<Rightarrow> lo \<le> t \<and> t \<le> hi)"

definition sql_lt :: "time option \<Rightarrow> time \<Rightarrow> bool" where
  "sql_lt col x = (case col of None \<Rightarrow> False | Some t \<Rightarrow> t < x)"

text \<open>The pattern that every rate of the controller repeats:
  \<open>rate := 0.0; if total > 0 { rate = float64(completed) / float64(total) * 100 }\<close>
  (\<open>n\<close> stands for the denominator).
  The \<open>float64\<close> values are modelled by real numbers.\<close>

definition rate :: "int \<Rightarrow> int \<Rightarrow> real" where
  "rate completed n =
     (if n > 0 then real_of_int completed / real_of_int n * 100 else 0)"

section \<open>The daily report\<close>

record DailyStats =
  ds_Date :: string
  ds_TasksCreated :: int
  ds_TasksCompleted :: int

definition daily_entry :: "store \<Rightarrow> nat \<Rightarrow> time \<Rightarrow> int \<Rightarrow> DailyStats" where
  "daily_entry db userID now i =
     (let date = AddDate 0 0 (- i) now;
          dateStr = Format_date date
      in \<lparr> ds_Date = dateStr,
           ds_TasksCreated =
             count_tasks db (\<lambda>t. t_user_id t = userID \<and> sql_DATE_eq (Some (t_created_at t)) dateStr),
           ds_TasksCompleted =
             count_tasks db (\<lambda>t. t_user_id t = userID \<and> sql_DATE_eq (t_completed_at t) dateStr) \<rparr>)"

definition daily_days :: "string option \<Rightarrow> int" where
  "daily_days q =
     (let daysStr = DefaultQuery q ''7'';
          d = SafeStringConvert daysStr
      in if d \<noteq> [] then
           (case SafeIntConvert d of
              Inr parsed \<Rightarrow> if parsed > 0 \<and> parsed \<le> 30 then parsed else 7
            | Inl err \<Rightarrow> 7)
         else 7)"

text \<open>The loop \<open>for i := days - 1; i >= 0; i--\<close> appends one entry per round; round
  number \<open>k\<close> has \<open>i = days - 1 - k\<close> and reads the clock for the \<open>k\<close>-th time.\<close>

definition GetDailyStats :: "store \<Rightarrow> nat \<Rightarrow> string option \<Rightarrow> clock \<Rightarrow> DailyStats list" where
  "GetDailyStats db userID q clk =
     (let days = daily_days q
      in map (\<lambda>k. daily_entry db userID (clk k) (days - 1 - int k)) [0..<nat days])"

section \<open>The weekly report\<close>

record WeeklyStats =
  ws_Week :: string
  ws_TasksCreated :: int
  ws_TasksCompleted :: int

definition weekStart :: "time \<Rightarrow> int \<Rightarrow> time" where
  "weekStart now i = AddDate 0 0 (- Weekday now + 1 - i * 7) now"

definition weekEnd :: "time \<Rightarrow> int \<Rightarrow> time" where
  "weekEnd now i = AddDate 0 0 6 (weekStart now i)"

text \<open>The separator of the label is the three bytes of the UTF-8 encoding of U+81F3
  between two spaces.\<close>

definition week_separator :: string where
  "week_separator = [CHR '' '', CHR 0xE8, CHR 0x87, CHR 0xB3, CHR '' '']"

definition weekly_entry :: "store \<Rightarrow> nat \<Rightarrow> time \<Rightarrow> int \<Rightarrow> WeeklyStats" where
  "weekly_entry db userID now i =
     (let weekStr = Format_date (weekStart now i) @ week_separator @ Format_date (weekEnd now i)
      in \<lparr> ws_Week = weekStr,
           ws_TasksCreated =
             count_tasks db (\<lambda>t. t_user_id t = userID
               \<and> sql_between (Some (t_created_at t)) (weekStart now i) (Add (weekEnd now i) (24 * Hour))),
           ws_TasksCompleted =
             count_tasks db (\<lambda>t. t_user_id t = userID
               \<and> sql_between (t_completed_at t) (weekStart now i) (Add (weekEnd now i) (24 * Hour))) \<rparr>)"

definition weekly_weeks :: "string option \<Rightarrow> int" where
  "weekly_weeks q =
     (let weeksStr = DefaultQuery q ''4'';
          w = SafeStringConvert weeksStr
      in if w \<noteq> [] then
           (case SafeIntConvert w of
              Inr parsed \<Rightarrow> if parsed > 0 \<and> parsed \<le> 12 then parsed else 4
            | Inl err \<Rightarrow> 4)
         else 4)"

definition GetWeeklyStats :: "store \<Rightarrow> nat \<Rightarrow> string option \<Rightarrow> clock \<Rightarrow> WeeklyStats list" where
  "GetWeeklyStats db userID q clk =
     (let weeks = weekly_weeks q
      in map (\<lambda>k. weekly_entry db userID (clk k) (weeks - 1 - int k)) [0..<nat weeks])"

section \<open>The productivity report\<close>

record ProductivityOverview =
  po_total_tasks :: int
  po_completed_tasks :: int
  po_completion_rate :: real
  po_overdue_tasks :: int

record PriorityDistribution =
  pd_low :: int
  pd_medium :: int
  pd_high :: int
  pd_urgent :: int

record RecentProductivity =
  rp_date :: string
  rp_created :: int
  rp_completed :: int
  rp_efficiency :: real

record CategoryEfficiency =
  ce_category_name :: string
  ce_total_tasks :: int
  ce_completed_tasks :: int
  ce_completion_rate :: real

record TodayStats =
  td_total_tasks :: int
  td_completed_tasks :: int
  td_completion_rate :: real

record ProductivityStats =
  ps_overview :: ProductivityOverview
  ps_priority_distribution :: PriorityDistribution
  ps_priority_completion_rates :: "(string \<times> real) list"
  ps_avg_completion_time_hours :: real
  ps_recent_productivity :: "RecentProductivity list"
  ps_category_efficiency :: "CategoryEfficiency list"
  ps_today :: TodayStats

definition priority_completion_rate :: "store \<Rightarrow> nat \<Rightarrow> string \<Rightarrow> real" where
  "priority_completion_rate db userID priority =
     (let total = count_tasks db (\<lambda>t. t_user_id t = userID \<and> t_priority t = priority);
          completed = count_tasks db (\<lambda>t. t_user_id t = userID \<and> t_priority t = priority
                        \<and> t_status t = ''completed'')
      in rate completed total)"

text \<open>\<open>TIMESTAMPDIFF(HOUR, a, b)\<close>: the whole hours from \<open>a\<close> to \<open>b\<close>, the fraction
  dropped, with the sign of the difference.\<close>

definition TIMESTAMPDIFF_HOUR :: "time \<Rightarrow> time \<Rightarrow> int" where
  "TIMESTAMPDIFF_HOUR a b = sgn (b - a) * (\<bar>b - a\<bar> div Hour)"

text \<open>The raw query
  \<open>SELECT AVG(TIMESTAMPDIFF(HOUR, created_at, completed_at)) as hours FROM tasks
    WHERE user_id = ? AND status = 'completed' AND completed_at IS NOT NULL\<close>.
  It is not built from the model, so it carries no condition on \<open>deleted_at\<close>. Over no
  row the average is NULL, and the scan leaves \<open>result.Hours\<close> at its zero value. The
  average is the exact one.\<close>

definition completion_hours :: "store \<Rightarrow> nat \<Rightarrow> int list" where
  "completion_hours db userID =
     map (\<lambda>t. TIMESTAMPDIFF_HOUR (t_created_at t) (the (t_completed_at t)))
       (filter (\<lambda>t. t_user_id t = userID \<and> t_status t = ''completed'' \<and> t_completed_at t \<noteq> None)
          (tasks db))"

definition avg_completion_time :: "store \<Rightarrow> nat \<Rightarrow> real" where
  "avg_completion_time db userID =
     (let hours = completion_hours db userID
      in if hours = [] then 0 else real_of_int (sum_list hours) / real (length hours))"

definition efficiency :: "int \<Rightarrow> int \<Rightarrow> real" where
  "efficiency created completed =
     (if created > 0 then real_of_int completed / real_of_int created * 100
      else if completed > 0 then 100 else 0)"

definition recent_entry :: "store \<Rightarrow> nat \<Rightarrow> time \<Rightarrow> int \<Rightarrow> RecentProductivity" where
  "recent_entry db userID now i =
     (let date = AddDate 0 0 (- i) now;
          dateStr = Format_date date;
          created = count_tasks db (\<lambda>t. t_user_id t = userID
                      \<and> sql_DATE_eq (Some (t_created_at t)) dateStr);
          completed = count_tasks db (\<lambda>t. t_user_id t = userID
                        \<and> sql_DATE_eq (t_completed_at t) dateStr)
      in \<lparr> rp_date = dateStr, rp_created = created, rp_completed = completed,
           rp_efficiency = efficiency created completed \<rparr>)"

definition category_entry :: "store \<Rightarrow> nat \<Rightarrow> category \<Rightarrow> CategoryEfficiency" where
  "category_entry db userID category =
     (let total = count_tasks db (\<lambda>t. t_user_id t = userID \<and> t_category_id t = Some (c_id category));
          completed = count_tasks db (\<lambda>t. t_user_id t = userID
                        \<and> t_category_id t = Some (c_id category) \<and> t_status t = ''completed'')
      in \<lparr> ce_category_name = c_name category, ce_total_tasks = total,
           ce_completed_tasks = completed, ce_completion_rate = rate completed total \<rparr>)"

text \<open>The seven rounds of the trend read the clock at positions 0 to 6; the overdue and
  today counts use the eighth reading.\<close>

definition GetProductivityStats :: "store \<Rightarrow> nat \<Rightarrow> clock \<Rightarrow> ProductivityStats" where
  "GetProductivityStats db userID clk =
     (let totalTasks = count_tasks db (\<lambda>t. t_user_id t = userID);
          completedTasks = count_tasks db (\<lambda>t. t_user_id t = userID \<and> t_status t = ''completed'');
          completionRate = rate completedTasks totalTasks;
          priorityCompletionRates =
            map (\<lambda>priority. (priority, priority_completion_rate db userID priority))
              [''low'', ''medium'', ''high'', ''urgent''];
          recentProductivity = map (\<lambda>k. recent_entry db userID (clk k) (6 - int k)) [0..<7];
          categories = filter (\<lambda>c. c_deleted_at c = None \<and> c_user_id c = userID) (categories db);
          categoryStats = map (category_entry db userID) categories;
          now = clk 7;
          overdueTasks = count_tasks db (\<lambda>t. t_user_id t = userID \<and> t_status t \<noteq> ''completed''
                           \<and> sql_lt (t_due_date t) now);
          today = Format_date now;
          todayTasks = count_tasks db (\<lambda>t. t_user_id t = userID \<and> sql_DATE_eq (t_due_date t) today);
          todayCompleted = count_tasks db (\<lambda>t. t_user_id t = userID
                             \<and> sql_DATE_eq (t_due_date t) today \<and> t_status t = ''completed'')
      in \<lparr> ps_overview =
             \<lparr> po_total_tasks = totalTasks, po_completed_tasks = completedTasks,
               po_completion_rate = completionRate, po_overdue_tasks = overdueTasks \<rparr>,
           ps_priority_distribution =
             \<lparr> pd_low = count_tasks db (\<lambda>t. t_user_id t = userID \<and> t_priority t = ''low''),
               pd_medium = count_tasks db (\<lambda>t. t_user_id t = userID \<and> t_priority t = ''medium''),
               pd_high = count_tasks db (\<lambda>t. t_user_id t = userID \<and> t_priority t = ''high''),
               pd_urgent = count_tasks db (\<lambda>t. t_user_id t = userID \<and> t_priority t = ''urgent'') \<rparr>,
           ps_priority_completion_rates = priorityCompletionRates,
           ps_avg_completion_time_hours = avg_completion_time db userID,
           ps_recent_productivity = recentProductivity,
           ps_category_efficiency = categoryStats,
           ps_today =
             \<lparr> td_total_tasks = todayTasks, td_completed_tasks = todayCompleted,
               td_completion_rate = rate todayCompleted todayTasks \<rparr> \<rparr>)"

text \<open>The overdue count of the productivity report.\<close>

definition overdue_tasks :: "store \<Rightarrow> nat \<Rightarrow> clock \<Rightarrow> int" where
  "overdue_tasks db userID clk = po_overdue_tasks (ps_overview (GetProductivityStats db userID clk))"

section \<open>The monthly report\<close>

record MonthlySummary =
  ms_tasks_created :: int
  ms_tasks_completed :: int
  ms_tasks_in_progress :: int
  ms_completion_rate :: real

record DailyTrend =
  dt_Day :: int
  dt_Created :: int
  dt_Completed :: int

record ProjectProgress =
  pp_project_name :: string
  pp_total_tasks :: int
  pp_completed :: int
  pp_progress :: real

record MonthlyReport =
  mr_month :: string
  mr_summary :: MonthlySummary
  mr_daily_trends :: "DailyTrend list"
  mr_project_progress :: "ProjectProgress list"

definition StatusBadRequest :: int where
  "StatusBadRequest = 400"

text \<open>The message of the error response, in its UTF-8 bytes.\<close>

definition month_format_message :: string where
  "month_format_message =
     [CHR 0xE6, CHR 0x9C, CHR 0x88, CHR 0xE4, CHR 0xBB, CHR 0xBD, CHR 0xE6, CHR 0xA0, CHR
      0xBC, CHR 0xE5, CHR 0xBC, CHR 0x8F, CHR 0xE9, CHR 0x94, CHR 0x99, CHR 0xE8, CHR
      0xAF, CHR 0xAF, CHR 0xEF, CHR 0xBC, CHR 0x8C, CHR 0xE5, CHR 0xBA, CHR 0x94, CHR
      0xE4, CHR 0xB8, CHR 0xBA, CHR '' '', CHR ''Y'', CHR ''Y'', CHR ''Y'', CHR ''Y'', CHR
      ''-'', CHR ''M'', CHR ''M'']"

definition monthStart :: "time \<Rightarrow> time" where
  "monthStart month = Date (Year month) (Month month) 1 0 0 0 0"

definition monthEnd :: "time \<Rightarrow> time" where
  "monthEnd month = Add (AddDate 0 1 0 (monthStart month)) (- Second)"

definition trend_entry :: "store \<Rightarrow> nat \<Rightarrow> time \<Rightarrow> int \<Rightarrow> DailyTrend" where
  "trend_entry db userID month day =
     (let dayStart = Date (Year month) (Month month) day 0 0 0 0;
          dayEnd = Add dayStart (24 * Hour - Second)
      in \<lparr> dt_Day = day,
           dt_Created = count_tasks db (\<lambda>t. t_user_id t = userID
                          \<and> sql_between (Some (t_created_at t)) dayStart dayEnd),
           dt_Completed = count_tasks db (\<lambda>t. t_user_id t = userID
                            \<and> sql_between (t_completed_at t) dayStart dayEnd) \<rparr>)"

definition project_entry :: "store \<Rightarrow> nat \<Rightarrow> project \<Rightarrow> ProjectProgress" where
  "project_entry db userID project =
     (let total = count_tasks db (\<lambda>t. t_project_id t = Some (p_id project) \<and> t_user_id t = userID);
          completed = count_tasks db (\<lambda>t. t_project_id t = Some (p_id project)
                        \<and> t_user_id t = userID \<and> t_status t = ''completed'')
      in \<lparr> pp_project_name = p_name project, pp_total_tasks = total, pp_completed = completed,
           pp_progress = rate completed total \<rparr>)"

text \<open>The default of the month parameter is computed before the parameter is looked
  up, so the handler reads the clock once in every case.\<close>

definition GetMonthlyReport ::
  "store \<Rightarrow> nat \<Rightarrow> string option \<Rightarrow> clock \<Rightarrow> (int \<times> string) + MonthlyReport" where
  "GetMonthlyReport db userID q clk =
     (let monthStr = DefaultQuery q (Format_month (clk 0))
      in case Parse_month monthStr of
           None \<Rightarrow> Inl (StatusBadRequest, month_format_message)
         | Some month \<Rightarrow>
             (let tasksCreated = count_tasks db (\<lambda>t. t_user_id t = userID
                    \<and> sql_between (Some (t_created_at t)) (monthStart month) (monthEnd month));
                  tasksCompleted = count_tasks db (\<lambda>t. t_user_id t = userID
                    \<and> sql_between (t_completed_at t) (monthStart month) (monthEnd month));
                  tasksInProgress = count_tasks db (\<lambda>t. t_user_id t = userID
                    \<and> t_status t = ''in_progress''
                    \<and> sql_between (Some (t_created_at t)) (monthStart month) (monthEnd month));
                  daysInMonth = Day (monthEnd month);
                  dailyTrends = map (trend_entry db userID month) [1..daysInMonth];
                  projects = filter (\<lambda>p. p_deleted_at p = None \<and> p_user_id p = userID) (projects db);
                  projectProgress = map (project_entry db userID) projects
              in Inr \<lparr> mr_month = monthStr,
                       mr_summary =
                         \<lparr> ms_tasks_created = tasksCreated, ms_tasks_completed = tasksCompleted,
                           ms_tasks_in_progress = tasksInProgress,
                           ms_completion_rate = rate tasksCompleted tasksCreated \<rparr>,
                       mr_daily_trends = dailyTrends,
                       mr_project_progress = projectProgress \<rparr>))"

section \<open>The routes of the statistics group\<close>

datatype request =
  ReqOverview
  | ReqDaily "string option"
  | ReqWeekly "string option"
  | ReqProductivity
  | ReqMonthly "string option"

datatype report =
  Overview StatsOverview
  | Daily "DailyStats list"
  | Weekly "WeeklyStats list"
  | Productivity ProductivityStats
  | Monthly MonthlyReport

fun stats_route :: "store \<Rightarrow> nat \<Rightarrow> request \<Rightarrow> clock \<Rightarrow> (int \<times> string) + report" where
  "stats_route db userID ReqOverview clk = Inr (Overview (GetOverview db userID))"
| "stats_route db userID (ReqDaily q) clk = Inr (Daily (GetDailyStats db userID q clk))"
| "stats_route db userID (ReqWeekly q) clk = Inr (Weekly (GetWeeklyStats db userID q clk))"
| "stats_route db userID ReqProductivity clk = Inr (Productivity (GetProductivityStats db userID clk))"
| "stats_route db userID (ReqMonthly q) clk =
     (case GetMonthlyReport db userID q clk of
        Inl e \<Rightarrow> Inl e
      | Inr r \<Rightarrow> Inr (Monthly r))"

text \<open>
  One execution of a handler, as a step of the world that holds the store and the
  clock. The handler finishes with \<open>utils.SuccessResponse\<close> or \<open>utils.ErrorResponse\<close>,
  which read the clock once more for the timestamp of the envelope. The world after the
  step has the same store, since the handlers only count and find, and a clock from
  which the readings of the step are gone. The error text of the envelope is left out.
\<close>

record Response =
  Code :: int
  Message :: string
  Data :: "report option"
  Timestamp :: time

record world =
  w_store :: store
  w_clock :: clock

fun handler_reads :: "request \<Rightarrow> nat" where
  "handler_reads ReqOverview = 0"
| "handler_reads (ReqDaily q) = nat (daily_days q)"
| "handler_reads (ReqWeekly q) = nat (weekly_weeks q)"
| "handler_reads ReqProductivity = 8"
| "handler_reads (ReqMonthly q) = 1"

definition serve :: "nat \<Rightarrow> request \<Rightarrow> world \<Rightarrow> Response \<times> world" where
  "serve userID r w =
     (let n = handler_reads r;
          stamp = w_clock w n;
          response =
            (case stats_route (w_store w) userID r (w_clock w) of
               Inr data \<Rightarrow> \<lparr> Code = 200, Message = ''success'', Data = Some data, Timestamp = stamp \<rparr>
             | Inl (code, message) \<Rightarrow>
                 \<lparr> Code = code, Message = message, Data = None, Timestamp = stamp \<rparr>)
      in (response, w \<lparr> w_clock := (\<lambda>k. w_clock w (k + (n + 1))) \<rparr>))"

section \<open>Example data\<close>

text \<open>A store with three tasks of owner 7, one of each status, one soft-deleted task
  of owner 7 and one task of owner 8.\<close>

definition example_task :: "nat \<Rightarrow> nat \<Rightarrow> string \<Rightarrow> task" where
  "example_task i u s =
     \<lparr> t_id = i, t_status = s, t_priority = ''medium'', t_due_date = None,
       t_completed_at = None, t_user_id = u, t_category_id = None, t_project_id = None,
       t_created_at = 0, t_deleted_at = None \<rparr>"

definition example_store :: store where
  "example_store =
     \<lparr> tasks = [example_task 1 7 ''pending'', example_task 2 7 ''in_progress'',
                example_task 3 7 ''completed'',
                (example_task 4 7 ''archived'')\<lparr> t_deleted_at := Some 5 \<rparr>,
                example_task 5 8 ''completed''],
       categories = [], projects = [] \<rparr>"

text \<open>A clock that returns the same instant at every reading.\<close>

definition frozen :: "time \<Rightarrow> clock" where
  "frozen now = (\<lambda>k. now)"

text \<open>Sunday 2024-03-10, 12:00.\<close>

definition noon :: time where
  "noon = Date 2024 3 10 12 0 0 0"

text \<open>A task row with the columns that the examples vary.\<close>

definition mk_task ::
  "nat \<Rightarrow> nat \<Rightarrow> string \<Rightarrow> time \<Rightarrow> time option \<Rightarrow> time option \<Rightarrow> task" where
  "mk_task i u s created completed due =
     \<lparr> t_id = i, t_status = s, t_priority = ''medium'', t_due_date = due,
       t_completed_at = completed, t_user_id = u, t_category_id = None, t_project_id = None,
       t_created_at = created, t_deleted_at = None \<rparr>"

text \<open>Owner 7 has a pending task that was due an hour ago, a completed task that was due
  a day ago, a pending task without a due date and a pending task due tomorrow.\<close>

definition overdue_store :: store where
  "overdue_store =
     \<lparr> tasks =
         [mk_task 1 7 ''pending'' (Date 2024 3 1 9 0 0 0) None (Some (Date 2024 3 10 11 0 0 0)),
          mk_task 2 7 ''completed'' (Date 2024 3 1 9 0 0 0) (Some (Date 2024 3 8 9 0 0 0))
            (Some (Date 2024 3 9 12 0 0 0)),
          mk_task 3 7 ''pending'' (Date 2024 3 1 9 0 0 0) None None,
          mk_task 4 7 ''pending'' (Date 2024 3 1 9 0 0 0) None (Some (Date 2024 3 11 12 0 0 0))],
       categories = [], projects = [] \<rparr>"

definition overdue_done :: task where
  "overdue_done =
     mk_task 5 7 ''completed'' (Date 2024 3 1 9 0 0 0) (Some (Date 2024 3 8 9 0 0 0))
       (Some (Date 2024 3 2 12 0 0 0))"

text \<open>Owner 7 completed two older tasks on 2024-03-10 and created one task on that day,
  and completed one older task the day before.\<close>

definition trend_store :: store where
  "trend_store =
     \<lparr> tasks =
         [mk_task 1 7 ''completed'' (Date 2024 3 1 9 0 0 0) (Some (Date 2024 3 10 8 0 0 0)) None,
          mk_task 2 7 ''completed'' (Date 2024 3 1 9 0 0 0) (Some (Date 2024 3 10 9 0 0 0)) None,
          mk_task 3 7 ''pending'' (Date 2024 3 10 10 0 0 0) None None,
          mk_task 4 7 ''completed'' (Date 2024 3 1 9 0 0 0) (Some (Date 2024 3 9 9 0 0 0)) None],
       categories = [], projects = [] \<rparr>"

section \<open>Counting lemmas\<close>

lemma count_tasks_owned:
  "count_tasks db (\<lambda>t. t_user_id t = u \<and> P t) = int (length (filter P (owned_tasks db u)))"
  by (simp add: count_tasks_def owned_tasks_def conj_ac)

lemma count_tasks_owned_all:
  "count_tasks db (\<lambda>t. t_user_id t = u) = int (length (owned_tasks db u))"
  by (simp add: count_tasks_def owned_tasks_def)

lemma length_three_way:
  assumes "\<forall>x \<in> set xs. f x = a \<or> f x = b \<or> f x = c"
    and "a \<noteq> b" and "a \<noteq> c" and "b \<noteq> c"
  shows "length (filter (\<lambda>x. f x = a) xs) + length (filter (\<lambda>x. f x = b) xs)
           + length (filter (\<lambda>x. f x = c) xs) = length xs"
  using assms by (induction xs) auto

section \<open>Evaluation lemmas\<close>

lemma civil_eqI:
  assumes "daysFromCivil y m d = z" "1 \<le> m" "m \<le> 12" "1 \<le> d" "d \<le> daysIn m y"
  shows "civil z = (y, m, d)"
  using civil_daysFromCivil [OF assms(2-5)] assms(1) by simp

lemma replicate_small:
  "replicate 2 x = [x, x]" "replicate 3 x = [x, x, x]"
  by (simp_all add: numeral_2_eq_2 numeral_3_eq_3)

lemmas calendar_eval =
  daysFromCivil_def daysBeforeYear_def daysBeforeMonth_def daysBefore_def daysIn_def isLeap_def
  dayNumber_def Hour_def Minute_def Second_def

lemmas appendInt_eval = appendInt_def digits.simps digit_def Let_def replicate_small

lemma overdue_tasks_eq:
  "overdue_tasks db userID clk =
     count_tasks db (\<lambda>t. t_user_id t = userID \<and> t_status t \<noteq> ''completed''
                           \<and> sql_lt (t_due_date t) (clk 7))"
  by (simp add: overdue_tasks_def GetProductivityStats_def Let_def)

lemma sql_lt_iff: "sql_lt col x \<longleftrightarrow> (\<exists>d. col = Some d \<and> d < x)"
  by (cases col) (simp_all add: sql_lt_def)

lemma dayNumber_Date:
  assumes "1 \<le> m" "m \<le> 12"
    and "0 \<le> h * Hour + mi * Minute + s * Second + ns"
    and "h * Hour + mi * Minute + s * Second + ns < 24 * Hour"
  shows "dayNumber (Date y m d h mi s ns) = daysFromCivil y m d"
proof -
  define r where "r = h * Hour + mi * Minute + s * Second + ns"
  have "Date y m d h mi s ns = r + daysFromCivil y m d * (24 * Hour)"
    by (simp add: Date_valid_month [OF assms(1,2)] r_def)
  moreover have "(r + daysFromCivil y m d * (24 * Hour)) div (24 * Hour) = daysFromCivil y m d"
    using assms(3,4) by (simp add: r_def div_pos_pos_trivial)
  ultimately show ?thesis by (simp add: dayNumber_def)
qed

lemma civil_Date:
  assumes "1 \<le> m" "m \<le> 12" "1 \<le> d" "d \<le> daysIn m y"
    and "0 \<le> h * Hour + mi * Minute + s * Second + ns"
    and "h * Hour + mi * Minute + s * Second + ns < 24 * Hour"
  shows "civil (dayNumber (Date y m d h mi s ns)) = (y, m, d)"
  unfolding dayNumber_Date [OF assms(1,2,5,6)] by (rule civil_daysFromCivil [OF assms(1-4)])

lemma Format_date_Date:
  assumes "1 \<le> m" "m \<le> 12" "1 \<le> d" "d \<le> daysIn m y"
    and "0 \<le> h * Hour + mi * Minute + s * Second + ns"
    and "h * Hour + mi * Minute + s * Second + ns < 24 * Hour"
  shows "Format_date (Date y m d h mi s ns)
           = appendInt y 4 @ ''-'' @ appendInt m 2 @ ''-'' @ appendInt d 2"
  by (simp add: Format_date_def Year_def Month_def Day_def civil_Date [OF assms])

lemma AddDate_Date:
  assumes "1 \<le> m" "m \<le> 12"
  shows "AddDate 0 0 n (Date y m d h mi s ns) = Date y m (d + n) h mi s ns"
  by (simp add: AddDate_days Date_valid_month [OF assms] daysFromCivil_add algebra_simps)

lemmas date_eval = Format_date_Date AddDate_Date daysIn_def daysBefore_def isLeap_def
  Hour_def Minute_def Second_def

lemma recent_nth:
  "k < 7 \<Longrightarrow> ps_recent_productivity (GetProductivityStats db userID clk) ! k
     = recent_entry db userID (clk k) (6 - int k)"
  by (simp add: GetProductivityStats_def Let_def)

lemma count_tasks_nonneg: "0 \<le> count_tasks db P"
  by (simp add: count_tasks_def)

lemma count_tasks_mono:
  assumes "\<And>t. P t \<Longrightarrow> Q t"
  shows "count_tasks db P \<le> count_tasks db Q"
proof -
  have "length (filter (\<lambda>t. t_deleted_at t = None \<and> P t) (tasks db))
        = length (filter P (filter (\<lambda>t. t_deleted_at t = None \<and> Q t) (tasks db)))"
    using assms by (auto intro!: arg_cong [where f = length] filter_cong)
  also have "\<dots> \<le> length (filter (\<lambda>t. t_deleted_at t = None \<and> Q t) (tasks db))"
    by (rule length_filter_le)
  finally show ?thesis by (simp add: count_tasks_def)
qed

lemma rate_nonneg: "0 \<le> c \<Longrightarrow> 0 \<le> rate c n"
  by (simp add: rate_def)

lemma rate_le_100: "c \<le> n \<Longrightarrow> rate c n \<le> 100"
  by (simp add: rate_def divide_le_eq)

lemma rate_zero: "rate c 0 = 0"
  by (simp add: rate_def)

lemma efficiency_nonneg: "0 \<le> c \<Longrightarrow> 0 \<le> efficiency n c"
  by (simp add: efficiency_def)

lemma efficiency_le_100: "0 \<le> n \<Longrightarrow> c \<le> n \<Longrightarrow> efficiency n c \<le> 100"
  by (simp add: efficiency_def divide_le_eq)

lemma efficiency_gt_100: "0 < n \<Longrightarrow> n < c \<Longrightarrow> 100 < efficiency n c"
  by (simp add: efficiency_def less_divide_eq)

lemma recent_set:
  "e \<in> set (ps_recent_productivity (GetProductivityStats db userID clk))
     \<Longrightarrow> \<exists>now i. e = recent_entry db userID now i"
  by (auto simp add: GetProductivityStats_def Let_def)

lemma recent_entry_fields:
  "rp_efficiency (recent_entry db userID now i)
     = efficiency (rp_created (recent_entry db userID now i)) (rp_completed (recent_entry db userID now i))"
  "0 \<le> rp_created (recent_entry db userID now i)"
  "0 \<le> rp_completed (recent_entry db userID now i)"
  by (simp_all add: recent_entry_def Let_def count_tasks_nonneg)

lemma sql_DATE_eq_iff: "sql_DATE_eq col s \<longleftrightarrow> (\<exists>c. col = Some c \<and> Format_date c = s)"
  by (cases col) (simp_all add: sql_DATE_eq_def)

lemma recent_entry_counts:
  "rp_created (recent_entry db userID now i)
     = int (length (filter (\<lambda>t. Format_date (t_created_at t) = rp_date (recent_entry db userID now i))
              (owned_tasks db userID)))"
  "rp_completed (recent_entry db userID now i)
     = int (length (filter (\<lambda>t. \<exists>c. t_completed_at t = Some c
                \<and> Format_date c = rp_date (recent_entry db userID now i)) (owned_tasks db userID)))"
  by (simp_all add: recent_entry_def Let_def count_tasks_owned sql_DATE_eq_iff)

lemma trend_store_day9:
  "recent_entry trend_store 7 noon 1 =
     \<lparr> rp_date = ''2024-03-09'', rp_created = 0, rp_completed = 1,
       rp_efficiency = efficiency 0 1 \<rparr>"
  by (simp add: recent_entry_def Let_def count_tasks_def trend_store_def mk_task_def
      sql_DATE_eq_def noon_def date_eval appendInt_eval)

lemma monthly_Inr:
  assumes "GetMonthlyReport db userID q clk = Inr r"
  shows "ms_completion_rate (mr_summary r)
           = rate (ms_tasks_completed (mr_summary r)) (ms_tasks_created (mr_summary r))"
    and "0 \<le> ms_tasks_completed (mr_summary r)"
    and "mr_project_progress r = map (project_entry db userID)
           (filter (\<lambda>p. p_deleted_at p = None \<and> p_user_id p = userID) (projects db))"
  using assms
  by (auto simp add: GetMonthlyReport_def Let_def count_tasks_nonneg split: option.splits)

lemma rate_count_le:
  assumes "\<And>t. P t \<Longrightarrow> Q t"
  shows "rate (count_tasks db P) (count_tasks db Q) \<le> 100"
  by (rule rate_le_100) (rule count_tasks_mono [OF assms])

lemma rate_count_nonneg: "0 \<le> rate (count_tasks db P) n"
  by (rule rate_nonneg) (rule count_tasks_nonneg)

lemma project_entry_rate:
  "0 \<le> pp_progress (project_entry db userID p)"
  "pp_progress (project_entry db userID p) \<le> 100"
  "pp_total_tasks (project_entry db userID p) = 0 \<Longrightarrow> pp_progress (project_entry db userID p) = 0"
proof -
  show "0 \<le> pp_progress (project_entry db userID p)"
    by (simp add: project_entry_def Let_def rate_count_nonneg)
  show "pp_progress (project_entry db userID p) \<le> 100"
    unfolding project_entry_def Let_def by simp (rule rate_count_le, simp)
  show "pp_total_tasks (project_entry db userID p) = 0 \<Longrightarrow> pp_progress (project_entry db userID p) = 0"
    by (simp add: project_entry_def Let_def rate_zero)
qed

lemma category_entry_rate:
  "0 \<le> ce_completion_rate (category_entry db userID c)"
  "ce_completion_rate (category_entry db userID c) \<le> 100"
  "ce_total_tasks (category_entry db userID c) = 0 \<Longrightarrow> ce_completion_rate (category_entry db userID c) = 0"
proof -
  show "0 \<le> ce_completion_rate (category_entry db userID c)"
    by (simp add: category_entry_def Let_def rate_count_nonneg)
  show "ce_completion_rate (category_entry db userID c) \<le> 100"
    unfolding category_entry_def Let_def by simp (rule rate_count_le, simp)
  show "ce_total_tasks (category_entry db userID c) = 0 \<Longrightarrow> ce_completion_rate (category_entry db userID c) = 0"
    by (simp add: category_entry_def Let_def rate_zero)
qed

lemma priority_rate:
  "0 \<le> priority_completion_rate db userID p" "priority_completion_rate db userID p \<le> 100"
proof -
  show "0 \<le> priority_completion_rate db userID p"
    by (simp add: priority_completion_rate_def Let_def rate_count_nonneg)
  show "priority_completion_rate db userID p \<le> 100"
    unfolding priority_completion_rate_def Let_def by (rule rate_count_le) simp
qed

section \<open>Claims\<close>

text \<open>
  C10. In every store in which each task of the owner has one of the statuses pending,
  in_progress and completed, the three per-status counts of the overview add up to its
  total: pending_tasks + in_progress_tasks + completed_tasks = total_tasks.
\<close>

theorem overview_status_partition:
  assumes "\<forall>t \<in> set (owned_tasks db userID).
             t_status t = ''pending'' \<or> t_status t = ''in_progress'' \<or> t_status t = ''completed''"
  shows "PendingTasks (GetOverview db userID) + InProgressTasks (GetOverview db userID)
           + CompletedTasks (GetOverview db userID) = TotalTasks (GetOverview db userID)"
proof -
  have "length (filter (\<lambda>t. t_status t = ''pending'') (owned_tasks db userID))
          + length (filter (\<lambda>t. t_status t = ''in_progress'') (owned_tasks db userID))
          + length (filter (\<lambda>t. t_status t = ''completed'') (owned_tasks db userID))
        = length (owned_tasks db userID)"
    by (rule length_three_way [OF assms]) simp_all
  then show ?thesis
    by (simp add: GetOverview_def count_tasks_owned count_tasks_owned_all
        flip: of_nat_add)
qed

theorem overview_status_partition_witness:
  "PendingTasks (GetOverview example_store 7) + InProgressTasks (GetOverview example_store 7)
     + CompletedTasks (GetOverview example_store 7) = TotalTasks (GetOverview example_store 7)
   \<and> TotalTasks (GetOverview example_store 7) = 3"
proof -
  have own: "owned_tasks example_store 7 =
      [example_task 1 7 ''pending'', example_task 2 7 ''in_progress'',
       example_task 3 7 ''completed'']"
    by (simp add: owned_tasks_def example_store_def example_task_def)
  have hyp: "\<forall>t \<in> set (owned_tasks example_store 7).
      t_status t = ''pending'' \<or> t_status t = ''in_progress'' \<or> t_status t = ''completed''"
    unfolding own by (simp add: example_task_def)
  have tot: "TotalTasks (GetOverview example_store 7) = 3"
    by (simp add: GetOverview_def count_tasks_owned_all own)
  show ?thesis
    using overview_status_partition [OF hyp] tot by simp
qed

text \<open>
  C8. The overdue count is the number of the owner's tasks whose status is not
  completed, whose due date is present and whose due date is strictly before now (the
  reading of the clock taken after the trend). A task with status completed is never
  counted, whatever its due date, and neither is a task without a due date: adding such
  a row to the store leaves the count as it was.
\<close>

theorem overdue_count:
  "overdue_tasks db userID clk =
     int (length (filter (\<lambda>t. t_status t \<noteq> ''completed'' \<and> (\<exists>d. t_due_date t = Some d \<and> d < clk 7))
                    (owned_tasks db userID)))
   \<and> (\<forall>t. t_status t = ''completed'' \<longrightarrow>
          overdue_tasks (db \<lparr> tasks := t # tasks db \<rparr>) userID clk = overdue_tasks db userID clk)
   \<and> (\<forall>t. t_due_date t = None \<longrightarrow>
          overdue_tasks (db \<lparr> tasks := t # tasks db \<rparr>) userID clk = overdue_tasks db userID clk)"
proof (intro conjI allI impI)
  show "overdue_tasks db userID clk =
     int (length (filter (\<lambda>t. t_status t \<noteq> ''completed'' \<and> (\<exists>d. t_due_date t = Some d \<and> d < clk 7))
                    (owned_tasks db userID)))"
    unfolding overdue_tasks_eq count_tasks_owned by (simp add: sql_lt_iff)
next
  fix t :: task
  assume "t_status t = ''completed''"
  then show "overdue_tasks (db \<lparr> tasks := t # tasks db \<rparr>) userID clk = overdue_tasks db userID clk"
    by (simp add: overdue_tasks_eq count_tasks_def)
next
  fix t :: task
  assume "t_due_date t = None"
  then show "overdue_tasks (db \<lparr> tasks := t # tasks db \<rparr>) userID clk = overdue_tasks db userID clk"
    by (simp add: overdue_tasks_eq count_tasks_def sql_lt_def)
qed

theorem overdue_count_witness:
  "t_status overdue_done = ''completed''
   \<and> overdue_tasks overdue_store 7 (frozen noon) = 1
   \<and> overdue_tasks (overdue_store \<lparr> tasks := overdue_done # tasks overdue_store \<rparr>) 7 (frozen noon) = 1
   \<and> t_due_date (mk_task 6 7 ''pending'' 0 None None) = None
   \<and> overdue_tasks (overdue_store \<lparr> tasks := mk_task 6 7 ''pending'' 0 None None # tasks overdue_store \<rparr>)
        7 (frozen noon) = 1"
proof -
  have s: "t_status overdue_done = ''completed''"
    by (simp add: overdue_done_def mk_task_def)
  have d: "t_due_date (mk_task 6 7 ''pending'' 0 None None) = None"
    by (simp add: mk_task_def)
  have v: "overdue_tasks overdue_store 7 (frozen noon) = 1"
    by (simp add: overdue_tasks_eq count_tasks_def overdue_store_def mk_task_def sql_lt_def
        frozen_def noon_def Date_def calendar_eval)
  show ?thesis
    using overdue_count [of overdue_store 7 "frozen noon"] s d v by simp
qed

text \<open>
  C2. The trend of the productivity report has seven entries. In each, the counts are
  those of the owner's tasks created and completed on the entry's date, and the
  efficiency is (completed / created) * 100 when created > 0, 100.0 when created = 0 and
  completed > 0, and 0.0 when both are 0.
\<close>

theorem efficiency_trend:
  "length (ps_recent_productivity (GetProductivityStats db userID clk)) = 7
   \<and> (\<forall>e \<in> set (ps_recent_productivity (GetProductivityStats db userID clk)).
        rp_created e
          = int (length (filter (\<lambda>t. Format_date (t_created_at t) = rp_date e) (owned_tasks db userID)))
      \<and> rp_completed e
          = int (length (filter (\<lambda>t. \<exists>c. t_completed_at t = Some c \<and> Format_date c = rp_date e)
                   (owned_tasks db userID)))
      \<and> (rp_created e > 0 \<longrightarrow>
           rp_efficiency e = real_of_int (rp_completed e) / real_of_int (rp_created e) * 100)
      \<and> (rp_created e = 0 \<and> rp_completed e > 0 \<longrightarrow> rp_efficiency e = 100)
      \<and> (rp_created e = 0 \<and> rp_completed e = 0 \<longrightarrow> rp_efficiency e = 0))"
proof (intro conjI ballI)
  show "length (ps_recent_productivity (GetProductivityStats db userID clk)) = 7"
    by (simp add: GetProductivityStats_def Let_def)
next
  fix e
  assume "e \<in> set (ps_recent_productivity (GetProductivityStats db userID clk))"
  then obtain now i where e: "e = recent_entry db userID now i"
    using recent_set by blast
  show "rp_created e
          = int (length (filter (\<lambda>t. Format_date (t_created_at t) = rp_date e) (owned_tasks db userID)))"
    unfolding e by (rule recent_entry_counts)
  show "rp_completed e
          = int (length (filter (\<lambda>t. \<exists>c. t_completed_at t = Some c \<and> Format_date c = rp_date e)
                   (owned_tasks db userID)))"
    unfolding e by (rule recent_entry_counts)
  show "rp_created e > 0 \<longrightarrow>
           rp_efficiency e = real_of_int (rp_completed e) / real_of_int (rp_created e) * 100"
    unfolding e recent_entry_fields(1) by (simp add: efficiency_def)
  show "rp_created e = 0 \<and> rp_completed e > 0 \<longrightarrow> rp_efficiency e = 100"
    unfolding e recent_entry_fields(1) by (simp add: efficiency_def)
  show "rp_created e = 0 \<and> rp_completed e = 0 \<longrightarrow> rp_efficiency e = 0"
    unfolding e recent_entry_fields(1) by (simp add: efficiency_def)
qed

theorem efficiency_trend_witness:
  "rp_created (ps_recent_productivity (GetProductivityStats trend_store 7 (frozen noon)) ! 5) = 0
   \<and> rp_completed (ps_recent_productivity (GetProductivityStats trend_store 7 (frozen noon)) ! 5) = 1
   \<and> rp_efficiency (ps_recent_productivity (GetProductivityStats trend_store 7 (frozen noon)) ! 5) = 100"
proof -
  let ?xs = "ps_recent_productivity (GetProductivityStats trend_store 7 (frozen noon))"
  have n: "?xs ! 5 = recent_entry trend_store 7 noon 1"
    by (simp add: recent_nth frozen_def)
  have m: "?xs ! 5 \<in> set ?xs"
    by (rule nth_mem) (simp add: GetProductivityStats_def Let_def)
  have c: "rp_created (?xs ! 5) = 0" "rp_completed (?xs ! 5) = 1"
    unfolding n trend_store_day9 by simp_all
  from efficiency_trend [of trend_store 7 "frozen noon"] m c
  have "rp_efficiency (?xs ! 5) = 100" by simp
  with c show ?thesis by simp
qed

text \<open>
  C1, as amended. Every rate is non-negative. The completion rates whose numerator
  counts a part of the tasks that the denominator counts (overall, per priority, per
  category, today, project progress) lie in [0,100] and are 0.0 when the denominator is 0.
  The daily efficiency and the monthly completion rate divide the tasks completed in a
  window by the tasks created in it: they are at most 100 when no more tasks were
  completed than created, the efficiency is above 100 when more tasks were completed
  than the positive number created, the monthly rate is 0.0 when nothing was created, and
  the efficiency with nothing created is 100.0 when something was completed and 0.0
  otherwise.
\<close>

theorem rates_range:
  "(0 \<le> po_completion_rate (ps_overview (GetProductivityStats db userID clk))
    \<and> po_completion_rate (ps_overview (GetProductivityStats db userID clk)) \<le> 100
    \<and> (po_total_tasks (ps_overview (GetProductivityStats db userID clk)) = 0 \<longrightarrow>
         po_completion_rate (ps_overview (GetProductivityStats db userID clk)) = 0))
   \<and> (\<forall>(priority, r) \<in> set (ps_priority_completion_rates (GetProductivityStats db userID clk)).
         0 \<le> r \<and> r \<le> 100)
   \<and> (\<forall>e \<in> set (ps_category_efficiency (GetProductivityStats db userID clk)).
         0 \<le> ce_completion_rate e \<and> ce_completion_rate e \<le> 100
         \<and> (ce_total_tasks e = 0 \<longrightarrow> ce_completion_rate e = 0))
   \<and> (0 \<le> td_completion_rate (ps_today (GetProductivityStats db userID clk))
      \<and> td_completion_rate (ps_today (GetProductivityStats db userID clk)) \<le> 100
      \<and> (td_total_tasks (ps_today (GetProductivityStats db userID clk)) = 0 \<longrightarrow>
           td_completion_rate (ps_today (GetProductivityStats db userID clk)) = 0))
   \<and> (\<forall>e \<in> set (ps_recent_productivity (GetProductivityStats db userID clk)).
         0 \<le> rp_efficiency e
         \<and> (rp_completed e \<le> rp_created e \<longrightarrow> rp_efficiency e \<le> 100)
         \<and> (0 < rp_created e \<and> rp_created e < rp_completed e \<longrightarrow> 100 < rp_efficiency e)
         \<and> (rp_created e = 0 \<longrightarrow> rp_efficiency e = (if rp_completed e > 0 then 100 else 0)))
   \<and> (\<forall>r. GetMonthlyReport db userID q clk = Inr r \<longrightarrow>
         0 \<le> ms_completion_rate (mr_summary r)
         \<and> (ms_tasks_completed (mr_summary r) \<le> ms_tasks_created (mr_summary r) \<longrightarrow>
              ms_completion_rate (mr_summary r) \<le> 100)
         \<and> (ms_tasks_created (mr_summary r) = 0 \<longrightarrow> ms_completion_rate (mr_summary r) = 0)
         \<and> (\<forall>e \<in> set (mr_project_progress r).
               0 \<le> pp_progress e \<and> pp_progress e \<le> 100
               \<and> (pp_total_tasks e = 0 \<longrightarrow> pp_progress e = 0)))"
proof -
  let ?p = "GetProductivityStats db userID clk"
  have a1: "po_completion_rate (ps_overview ?p) \<le> 100"
    unfolding GetProductivityStats_def Let_def by simp (rule rate_count_le, simp)
  have a: "0 \<le> po_completion_rate (ps_overview ?p)
    \<and> po_completion_rate (ps_overview ?p) \<le> 100
    \<and> (po_total_tasks (ps_overview ?p) = 0 \<longrightarrow> po_completion_rate (ps_overview ?p) = 0)"
    using a1 by (simp add: GetProductivityStats_def Let_def rate_count_nonneg rate_zero)
  have b: "\<forall>(priority, r) \<in> set (ps_priority_completion_rates ?p). 0 \<le> r \<and> r \<le> 100"
    by (simp add: GetProductivityStats_def Let_def priority_rate)
  have c: "\<forall>e \<in> set (ps_category_efficiency ?p).
         0 \<le> ce_completion_rate e \<and> ce_completion_rate e \<le> 100
         \<and> (ce_total_tasks e = 0 \<longrightarrow> ce_completion_rate e = 0)"
    by (auto simp add: GetProductivityStats_def Let_def category_entry_rate)
  have d1: "td_completion_rate (ps_today ?p) \<le> 100"
    unfolding GetProductivityStats_def Let_def by simp (rule rate_count_le, simp)
  have d: "0 \<le> td_completion_rate (ps_today ?p) \<and> td_completion_rate (ps_today ?p) \<le> 100
      \<and> (td_total_tasks (ps_today ?p) = 0 \<longrightarrow> td_completion_rate (ps_today ?p) = 0)"
    using d1 by (simp add: GetProductivityStats_def Let_def rate_count_nonneg rate_zero)
  have e: "\<forall>e \<in> set (ps_recent_productivity ?p).
         0 \<le> rp_efficiency e
         \<and> (rp_completed e \<le> rp_created e \<longrightarrow> rp_efficiency e \<le> 100)
         \<and> (0 < rp_created e \<and> rp_created e < rp_completed e \<longrightarrow> 100 < rp_efficiency e)
         \<and> (rp_created e = 0 \<longrightarrow> rp_efficiency e = (if rp_completed e > 0 then 100 else 0))"
  proof
    fix e assume "e \<in> set (ps_recent_productivity ?p)"
    then obtain now i where e: "e = recent_entry db userID now i"
      using recent_set by blast
    show "0 \<le> rp_efficiency e
         \<and> (rp_completed e \<le> rp_created e \<longrightarrow> rp_efficiency e \<le> 100)
         \<and> (0 < rp_created e \<and> rp_created e < rp_completed e \<longrightarrow> 100 < rp_efficiency e)
         \<and> (rp_created e = 0 \<longrightarrow> rp_efficiency e = (if rp_completed e > 0 then 100 else 0))"
      unfolding e recent_entry_fields(1)
      using recent_entry_fields(2,3) [of db userID now i]
      by (auto simp add: efficiency_nonneg efficiency_le_100 efficiency_gt_100)
         (simp_all add: efficiency_def)
  qed
  have f: "\<forall>r. GetMonthlyReport db userID q clk = Inr r \<longrightarrow>
         0 \<le> ms_completion_rate (mr_summary r)
         \<and> (ms_tasks_completed (mr_summary r) \<le> ms_tasks_created (mr_summary r) \<longrightarrow>
              ms_completion_rate (mr_summary r) \<le> 100)
         \<and> (ms_tasks_created (mr_summary r) = 0 \<longrightarrow> ms_completion_rate (mr_summary r) = 0)
         \<and> (\<forall>e \<in> set (mr_project_progress r).
               0 \<le> pp_progress e \<and> pp_progress e \<le> 100
               \<and> (pp_total_tasks e = 0 \<longrightarrow> pp_progress e = 0))"
  proof (intro allI impI)
    fix r assume r: "GetMonthlyReport db userID q clk = Inr r"
    show "0 \<le> ms_completion_rate (mr_summary r)
         \<and> (ms_tasks_completed (mr_summary r) \<le> ms_tasks_created (mr_summary r) \<longrightarrow>
              ms_completion_rate (mr_summary r) \<le> 100)
         \<and> (ms_tasks_created (mr_summary r) = 0 \<longrightarrow> ms_completion_rate (mr_summary r) = 0)
         \<and> (\<forall>e \<in> set (mr_project_progress r).
               0 \<le> pp_progress e \<and> pp_progress e \<le> 100
               \<and> (pp_total_tasks e = 0 \<longrightarrow> pp_progress e = 0))"
      unfolding monthly_Inr(1,3) [OF r]
      using monthly_Inr(2) [OF r]
      by (auto simp add: rate_nonneg rate_le_100 rate_zero project_entry_rate)
  qed
  from a b c d e f show ?thesis by blast
qed

text \<open>The claim as stated fails: on 2024-03-10 owner 7 created one task and completed
  two, and the efficiency of that day is 200.\<close>

theorem rates_range_counterexample:
  "rp_efficiency (ps_recent_productivity (GetProductivityStats trend_store 7 (frozen noon)) ! 6) = 200"
  by (simp add: recent_nth frozen_def recent_entry_def Let_def count_tasks_def trend_store_def
      mk_task_def sql_DATE_eq_def noon_def date_eval appendInt_eval efficiency_def)

end
